theory Spec2Isabelle
  imports Main "HOL-Library.Sublist"
begin

section \<open>Python values\<close>

text \<open>
  The fields of a trace and of an observation hold parsed JSON: \<open>None\<close>, booleans,
  integers, strings, lists and dictionaries with string keys. A dictionary is an
  association list read with \<^const>\<open>map_of\<close>. A string is a list of characters.
\<close>

datatype pyval =
    PNone
  | PBool bool
  | PInt int
  | PStr string
  | PList "pyval list"
  | PDict "(string \<times> pyval) list"

datatype py_error = TypeError | KeyError | IndexError

text \<open>Truth value testing, as \<open>if x:\<close> does it.\<close>

fun truthy :: "pyval \<Rightarrow> bool" where
  "truthy PNone = False"
| "truthy (PBool b) = b"
| "truthy (PInt i) = (i \<noteq> 0)"
| "truthy (PStr s) = (s \<noteq> [])"
| "truthy (PList xs) = (xs \<noteq> [])"
| "truthy (PDict d) = (d \<noteq> [])"

text \<open>\<open>len(x)\<close>: defined on strings, lists and dictionaries, a TypeError elsewhere.\<close>

fun py_len :: "pyval \<Rightarrow> py_error + int" where
  "py_len (PStr s) = Inr (int (length s))"
| "py_len (PList xs) = Inr (int (length xs))"
| "py_len (PDict d) = Inr (int (length d))"
| "py_len v = Inl TypeError"

text \<open>
  \<open>x[0]\<close>: the first element of a list, the first character of a string; a dictionary
  with string keys has no key \<open>0\<close>; the other values are not subscriptable.
\<close>

fun py_getitem0 :: "pyval \<Rightarrow> py_error + pyval" where
  "py_getitem0 (PList []) = Inl IndexError"
| "py_getitem0 (PList (x # xs)) = Inr x"
| "py_getitem0 (PStr []) = Inl IndexError"
| "py_getitem0 (PStr (c # s)) = Inr (PStr [c])"
| "py_getitem0 (PDict d) = Inl KeyError"
| "py_getitem0 v = Inl TypeError"

text \<open>
  \<open>str(x)\<close>: a string is returned as it is; the text of any other value is given by the
  parameter \<open>repr\<close> (the interpreter's formatting of numbers and containers).
\<close>

fun py_str :: "(pyval \<Rightarrow> string) \<Rightarrow> pyval \<Rightarrow> string" where
  "py_str repr (PStr s) = s"
| "py_str repr v = repr v"

text \<open>\<open>s.lower()\<close> on the ASCII letters; every other character is kept.\<close>

definition lower_char :: "char \<Rightarrow> char" where
  "lower_char c =
     (let n = (of_char c :: nat) in if 65 \<le> n \<and> n \<le> 90 then char_of (n + 32) else c)"

definition lower :: "string \<Rightarrow> string" where
  "lower s = map lower_char s"

text \<open>\<open>sub in s\<close> on strings: \<open>sub\<close> occurs in \<open>s\<close> as a contiguous block.\<close>

fun str_contains :: "string \<Rightarrow> string \<Rightarrow> bool" where
  "str_contains sub [] = (sub = [])"
| "str_contains sub (c # s) = (prefix sub (c # s) \<or> str_contains sub s)"

text \<open>
  \<open>key in x\<close> for a string key: a key test on a dictionary, a substring test on a
  string, a membership test on a list, a TypeError on the values that are no container.
\<close>

fun py_in :: "string \<Rightarrow> pyval \<Rightarrow> py_error + bool" where
  "py_in k (PDict d) = Inr (map_of d k \<noteq> None)"
| "py_in k (PStr s) = Inr (str_contains k s)"
| "py_in k (PList xs) = Inr (PStr k \<in> set xs)"
| "py_in k v = Inl TypeError"

text \<open>\<open>x[key]\<close> for a string key: only a dictionary can be read this way.\<close>

fun py_getitem :: "pyval \<Rightarrow> string \<Rightarrow> py_error + pyval" where
  "py_getitem (PDict d) k = (case map_of d k of None \<Rightarrow> Inl KeyError | Some v \<Rightarrow> Inr v)"
| "py_getitem v k = Inl TypeError"

section \<open>Traces, observations and component sets\<close>

text \<open>
  A field of type \<open>pyval option\<close> is \<open>None\<close> when the object has no such attribute
  (\<open>hasattr\<close> is false) and \<open>Some PNone\<close> when the attribute holds \<open>None\<close>.
\<close>

record trace =
  trace_id :: string
  trace_input :: "pyval option"
  trace_output :: "pyval option"
  trace_metadata :: "pyval option"
  trace_observations :: "string list"

record observation =
  obs_name :: "pyval option"
  obs_input :: "pyval option"
  obs_output :: "pyval option"

record tool_usage =
  tool_name :: string
  tool_input :: pyval
  tool_output :: pyval

record components =
  user_inputs :: "string list"
  agent_responses :: "string list"
  retrieved_contexts :: "string list"
  tool_usages :: "tool_usage list"
  available_tools :: pyval

text \<open>
  \<open>langfuse.api.observations.get(obsID)\<close>: the call either raises or returns a value the
  inner loop iterates over; the model gives the observations that iteration yields.
\<close>

type_synonym langfuse = "string \<Rightarrow> string + observation list"

subsection \<open>\<open>extract_span_components\<close>\<close>

text \<open>The block on \<open>trace.input\<close>.\<close>

fun input_block :: "(pyval \<Rightarrow> string) \<Rightarrow> pyval option \<Rightarrow> py_error + string list" where
  "input_block repr None = Inr []"
| "input_block repr (Some PNone) = Inr []"
| "input_block repr (Some (PDict d)) =
     (case map_of d ''args'' of
        Some a \<Rightarrow>
          (if truthy a then
             (case py_len a of
                Inl e \<Rightarrow> Inl e
              | Inr n \<Rightarrow>
                  (if n > 0 then
                     (case py_getitem0 a of
                        Inl e \<Rightarrow> Inl e
                      | Inr x \<Rightarrow> Inr [py_str repr x])
                   else Inr []))
           else Inr [])
      | None \<Rightarrow> Inr [py_str repr (PDict d)])"
| "input_block repr (Some (PStr s)) = Inr [s]"
| "input_block repr (Some v) = Inr [py_str repr v]"

text \<open>The block on \<open>trace.output\<close>.\<close>

fun output_block :: "(pyval \<Rightarrow> string) \<Rightarrow> pyval option \<Rightarrow> string list" where
  "output_block repr None = []"
| "output_block repr (Some PNone) = []"
| "output_block repr (Some (PStr s)) = [s]"
| "output_block repr (Some v) = [py_str repr v]"

text \<open>\<open>x if hasattr(obs, ...) and x else None\<close>.\<close>

fun or_none :: "pyval option \<Rightarrow> pyval" where
  "or_none None = PNone"
| "or_none (Some v) = (if truthy v then v else PNone)"

text \<open>\<open>hasattr(obs, 'name') and obs.name\<close>.\<close>

fun has_name :: "observation \<Rightarrow> bool" where
  "has_name obs = (case obs_name obs of None \<Rightarrow> False | Some n \<Rightarrow> truthy n)"

text \<open>
  The body of the inner loop, on the pair \<open>(tool_usages, retrieved_contexts)\<close> of the
  lists it appends to.
\<close>

fun obs_body ::
  "(pyval \<Rightarrow> string) \<Rightarrow> tool_usage list \<times> string list \<Rightarrow> observation
     \<Rightarrow> tool_usage list \<times> string list" where
  "obs_body repr (tools, ctxs) obs =
     (case obs_name obs of
        None \<Rightarrow> (tools, ctxs)
      | Some n \<Rightarrow>
          (if truthy n then
             (let tname = py_str repr n;
                  tin = or_none (obs_input obs);
                  tout = or_none (obs_output obs);
                  tools' = tools @ [\<lparr>tool_name = tname, tool_input = tin, tool_output = tout\<rparr>]
              in if str_contains ''retrieve'' (lower tname) \<and> truthy tout
                 then (tools', ctxs @ [py_str repr tout])
                 else (tools', ctxs))
           else (tools, ctxs)))"

text \<open>
  The loop over \<open>trace.observations\<close> inside the \<open>try\<close>: an exception of the fetch leaves
  the loop, the handler prints, and the lists keep what was appended before.
\<close>

fun obs_loop ::
  "(pyval \<Rightarrow> string) \<Rightarrow> langfuse \<Rightarrow> string list \<Rightarrow> tool_usage list \<times> string list
     \<Rightarrow> tool_usage list \<times> string list" where
  "obs_loop repr lf [] acc = acc"
| "obs_loop repr lf (obsID # rest) acc =
     (case lf obsID of
        Inl e \<Rightarrow> acc
      | Inr observations \<Rightarrow> obs_loop repr lf rest (foldl (obs_body repr) acc observations))"

text \<open>The block on \<open>trace.metadata\<close>; \<open>None\<close> when \<open>available_tools\<close> stays unbound.\<close>

fun metadata_block :: "pyval option \<Rightarrow> py_error + pyval option" where
  "metadata_block None = Inr None"
| "metadata_block (Some m) =
     (if truthy m then
        (case py_in ''attributes'' m of
           Inl e \<Rightarrow> Inl e
         | Inr False \<Rightarrow> Inr None
         | Inr True \<Rightarrow>
             (case py_getitem m ''attributes'' of
                Inl e \<Rightarrow> Inl e
              | Inr attributes \<Rightarrow>
                  (case py_in ''agent.tools'' attributes of
                     Inl e \<Rightarrow> Inl e
                   | Inr False \<Rightarrow> Inr None
                   | Inr True \<Rightarrow>
                       (case py_getitem attributes ''agent.tools'' of
                          Inl e \<Rightarrow> Inl e
                        | Inr tools \<Rightarrow> Inr (Some tools)))))
      else Inr None)"

definition extract_span_components ::
  "(pyval \<Rightarrow> string) \<Rightarrow> langfuse \<Rightarrow> trace \<Rightarrow> py_error + components" where
  "extract_span_components repr lf t =
     (case input_block repr (trace_input t) of
        Inl e \<Rightarrow> Inl e
      | Inr us \<Rightarrow>
          (let rs = output_block repr (trace_output t);
               (tools, ctxs) = obs_loop repr lf (trace_observations t) ([], [])
           in case metadata_block (trace_metadata t) of
                Inl e \<Rightarrow> Inl e
              | Inr avail \<Rightarrow>
                  Inr \<lparr>user_inputs = us, agent_responses = rs, retrieved_contexts = ctxs,
                       tool_usages = tools,
                       available_tools = (case avail of None \<Rightarrow> PList [] | Some v \<Rightarrow> v)\<rparr>))"

subsection \<open>\<open>match_trace_to_test_case\<close>\<close>

text \<open>An entry of the list under \<open>questions\<close> in the test case file.\<close>

record test_case =
  query :: string
  expected_answer :: string

text \<open>The test of the loop: \<open>test_case["query"].lower() in user_input.lower()\<close>.\<close>

definition query_matches :: "string \<Rightarrow> test_case \<Rightarrow> bool" where
  "query_matches user_input tc = str_contains (lower (query tc)) (lower user_input)"

text \<open>A function that ends without \<open>return\<close> gives \<open>None\<close>.\<close>

fun match_trace_to_test_case :: "string \<Rightarrow> test_case list \<Rightarrow> string option" where
  "match_trace_to_test_case user_input [] = None"
| "match_trace_to_test_case user_input (tc # test_cases) =
     (if query_matches user_input tc then Some (expected_answer tc)
      else match_trace_to_test_case user_input test_cases)"

subsection \<open>\<open>process_traces\<close>\<close>

record message =
  role :: string
  content :: string

text \<open>
  \<open>MultiTurnSample\<close> of the evaluation library, taken as the record of the two
  arguments it is built from.
\<close>

record multi_turn_sample =
  user_input :: "message list"
  reference :: "string option"

record mapping_entry =
  m_trace_id :: string
  m_type :: string
  m_index :: int

record processed =
  multi_turn_samples :: "multi_turn_sample list"
  trace_sample_mapping :: "mapping_entry list"

text \<open>The body of \<open>for i in range(max(len(user_inputs), len(agent_responses)))\<close>.\<close>

definition messages_body :: "string list \<Rightarrow> string list \<Rightarrow> nat \<Rightarrow> message list \<Rightarrow> message list" where
  "messages_body us rs i messages =
     (let messages1 =
            (if i < length us then messages @ [\<lparr>role = ''user'', content = us ! i\<rparr>]
             else messages)
      in if i < length rs then messages1 @ [\<lparr>role = ''assistant'', content = rs ! i\<rparr>]
         else messages1)"

definition build_messages :: "string list \<Rightarrow> string list \<Rightarrow> message list" where
  "build_messages us rs = fold (messages_body us rs) [0 ..< max (length us) (length rs)] []"

text \<open>
  The body of the loop over the traces, on the pair of result lists. An exception of
  \<open>extract_span_components\<close> is not caught here and ends the whole run.
\<close>

definition trace_body ::
  "(pyval \<Rightarrow> string) \<Rightarrow> langfuse \<Rightarrow> test_case list \<Rightarrow> processed \<Rightarrow> trace
     \<Rightarrow> py_error + processed" where
  "trace_body repr lf test_cases acc t =
     (case extract_span_components repr lf t of
        Inl e \<Rightarrow> Inl e
      | Inr comps \<Rightarrow>
          (if user_inputs comps \<noteq> [] then
             (let first_user_input = (if user_inputs comps \<noteq> [] then hd (user_inputs comps) else []);
                  messages = build_messages (user_inputs comps) (agent_responses comps);
                  expected = match_trace_to_test_case first_user_input test_cases;
                  samples = multi_turn_samples acc @ [\<lparr>user_input = messages, reference = expected\<rparr>]
              in Inr \<lparr>multi_turn_samples = samples,
                      trace_sample_mapping = trace_sample_mapping acc @
                        [\<lparr>m_trace_id = trace_id t, m_type = ''multi_turn'',
                          m_index = int (length samples) - 1\<rparr>]\<rparr>)
           else Inr acc))"

fun traces_loop ::
  "(pyval \<Rightarrow> string) \<Rightarrow> langfuse \<Rightarrow> test_case list \<Rightarrow> processed \<Rightarrow> trace list
     \<Rightarrow> py_error + processed" where
  "traces_loop repr lf test_cases acc [] = Inr acc"
| "traces_loop repr lf test_cases acc (t # traces) =
     (case trace_body repr lf test_cases acc t of
        Inl e \<Rightarrow> Inl e
      | Inr acc' \<Rightarrow> traces_loop repr lf test_cases acc' traces)"

text \<open>
  \<open>process_traces\<close>, with the list that \<open>load_test_cases()\<close> reads from the test case
  file as the parameter \<open>test_cases\<close>.
\<close>

definition process_traces ::
  "(pyval \<Rightarrow> string) \<Rightarrow> langfuse \<Rightarrow> test_case list \<Rightarrow> trace list \<Rightarrow> py_error + processed" where
  "process_traces repr lf test_cases traces =
     traces_loop repr lf test_cases \<lparr>multi_turn_samples = [], trace_sample_mapping = []\<rparr> traces"

section \<open>Downloading the filings of a company\<close>

text \<open>
  An exception of this part is only ever caught by \<open>except Exception as e\<close> and
  formatted with \<open>{e}\<close>, so it is modelled by its text \<open>str(e)\<close>.
\<close>

datatype exn = Raised string

fun exn_str :: "exn \<Rightarrow> string" where
  "exn_str (Raised msg) = msg"

text \<open>\<open>KeyError(k)\<close> for a string key: its text is the key between single quotes.\<close>

definition key_error :: "string \<Rightarrow> exn" where
  "key_error k = Raised (CHR 0x27 # k @ [CHR 0x27])"

text \<open>A filing is a dictionary; a field is \<open>None\<close> when the key is missing.\<close>

record filing =
  linkToFilingDetails :: "string option"
  periodOfReport :: "string option"
  accessionNo :: "string option"

text \<open>
  The external services, as functions of their arguments:
  \<^item> \<open>query_api\<close>: the list under \<open>"filings"\<close> in the response of
    \<open>QueryApi.get_filings\<close> for a ticker, or the exception of the call;
  \<^item> \<open>render_api\<close>: \<open>RenderApi.get_filing(url)\<close>;
  \<^item> \<open>save_file\<close>: creating the directory for a year and a symbol and writing the
    content under a file name; it returns the path as a string;
  \<^item> \<open>s3_client\<close>: the exception of \<open>boto3.client('s3')\<close>, if any;
  \<^item> \<open>upload_file\<close>: the body of the \<open>try\<close> of \<open>upload_to_s3\<close> for a bucket, a
    local path, a symbol and a year: the exception it ends with, if any;
  \<^item> \<open>write_results\<close>: writing \<open>download_results.json\<close>.
\<close>

record company_result =
  company_symbol :: string
  total_filings :: int
  downloaded :: int
  uploaded :: int
  errors :: "string list"

text \<open>
  The aggregate result. The two time stamps \<open>start_time\<close> and \<open>end_time\<close> are not
  part of the model.
\<close>

record overall_results =
  companies_processed :: int
  total_filings_found :: int
  total_downloaded :: int
  total_uploaded :: int
  company_results :: "string \<rightharpoonup> company_result"

record services =
  query_api :: "string \<Rightarrow> exn + filing list"
  render_api :: "string \<Rightarrow> exn + string"
  save_file :: "string \<Rightarrow> string \<Rightarrow> string \<Rightarrow> string \<Rightarrow> exn + string"
  s3_client :: "exn option"
  upload_file :: "string \<Rightarrow> string \<Rightarrow> string \<Rightarrow> string \<Rightarrow> exn option"
  write_results :: "overall_results \<Rightarrow> exn option"

subsection \<open>\<open>get_filings\<close>\<close>

text \<open>
  The function prints \<open>response["filings"][0]\<close> before it returns the list, so an
  empty list ends in an IndexError.
\<close>

definition get_filings :: "services \<Rightarrow> string \<Rightarrow> exn + filing list" where
  "get_filings env symbol =
     (case query_api env symbol of
        Inl e \<Rightarrow> Inl e
      | Inr [] \<Rightarrow> Inl (Raised ''list index out of range'')
      | Inr (f # fs) \<Rightarrow> Inr (f # fs))"

subsection \<open>\<open>download_filing\<close> and \<open>upload_to_s3\<close>\<close>

text \<open>The body of the \<open>try\<close> of \<open>download_filing\<close>.\<close>

definition download_try :: "services \<Rightarrow> string \<Rightarrow> filing \<Rightarrow> string \<Rightarrow> exn + string" where
  "download_try env url f symbol =
     (case render_api env url of
        Inl e \<Rightarrow> Inl e
      | Inr html_content \<Rightarrow>
          (case periodOfReport f of
             None \<Rightarrow> Inl (key_error ''periodOfReport'')
           | Some period \<Rightarrow>
               (let year = take 4 period;
                    filename = symbol @ ''_'' @ year @ ''_'' @ period @ ''_10K.html''
                in save_file env year symbol filename html_content)))"

text \<open>
  The handler returns \<open>None\<close> after logging a line that reads \<open>filing['accessionNo']\<close>;
  a filing without that key raises there.
\<close>

definition download_filing ::
  "services \<Rightarrow> string \<Rightarrow> filing \<Rightarrow> string \<Rightarrow> exn + string option" where
  "download_filing env url f symbol =
     (case download_try env url f symbol of
        Inr local_file_path \<Rightarrow> Inr (Some local_file_path)
      | Inl e \<Rightarrow>
          (case accessionNo f of
             None \<Rightarrow> Inl (key_error ''accessionNo'')
           | Some a \<Rightarrow> Inr None))"

definition upload_to_s3 ::
  "services \<Rightarrow> string \<Rightarrow> string \<Rightarrow> string \<Rightarrow> string \<Rightarrow> exn + bool" where
  "upload_to_s3 env s3_bucket local_file_path symbol year =
     (case s3_client env of
        Some e \<Rightarrow> Inl e
      | None \<Rightarrow>
          (case upload_file env s3_bucket local_file_path symbol year of
             None \<Rightarrow> Inr True
           | Some e \<Rightarrow> Inr False))"

subsection \<open>\<open>process_company\<close>\<close>

text \<open>
  The body of the \<open>try\<close> inside the loop over the filings: the record as the body left
  it, and the exception that ended the body, if any.
\<close>

definition filing_try ::
  "services \<Rightarrow> string \<Rightarrow> string \<Rightarrow> company_result \<Rightarrow> filing \<Rightarrow> company_result \<times> exn option" where
  "filing_try env bucket_name symbol results f =
     (case linkToFilingDetails f of
        None \<Rightarrow> (results, Some (key_error ''linkToFilingDetails''))
      | Some url \<Rightarrow>
          (case download_filing env url f symbol of
             Inl e \<Rightarrow> (results, Some e)
           | Inr None \<Rightarrow>
               (case accessionNo f of
                  None \<Rightarrow> (results, Some (key_error ''accessionNo''))
                | Some a \<Rightarrow>
                    (results\<lparr>errors := errors results @ [''Failed to download filing '' @ a]\<rparr>,
                     None))
           | Inr (Some local_file_path) \<Rightarrow>
               (if local_file_path \<noteq> [] then
                  (let results1 = results\<lparr>downloaded := downloaded results + 1\<rparr>
                   in case periodOfReport f of
                        None \<Rightarrow> (results1, Some (key_error ''periodOfReport''))
                      | Some period \<Rightarrow>
                          (case upload_to_s3 env bucket_name local_file_path symbol (take 4 period) of
                             Inl e \<Rightarrow> (results1, Some e)
                           | Inr True \<Rightarrow> (results1\<lparr>uploaded := uploaded results1 + 1\<rparr>, None)
                           | Inr False \<Rightarrow>
                               (results1\<lparr>errors := errors results1 @
                                   [''Failed to upload '' @ local_file_path]\<rparr>, None)))
                else
                  (case accessionNo f of
                     None \<Rightarrow> (results, Some (key_error ''accessionNo''))
                   | Some a \<Rightarrow>
                       (results\<lparr>errors := errors results @ [''Failed to download filing '' @ a]\<rparr>,
                        None)))))"

text \<open>
  The \<open>try\<close> with its handler: the handler formats \<open>filing['accessionNo']\<close> itself, so a
  filing without that key raises out of the loop.
\<close>

definition filing_body ::
  "services \<Rightarrow> string \<Rightarrow> string \<Rightarrow> company_result \<Rightarrow> filing \<Rightarrow> exn + company_result" where
  "filing_body env bucket_name symbol results f =
     (case filing_try env bucket_name symbol results f of
        (results', None) \<Rightarrow> Inr results'
      | (results', Some e) \<Rightarrow>
          (case accessionNo f of
             None \<Rightarrow> Inl (key_error ''accessionNo'')
           | Some a \<Rightarrow>
               Inr (results'\<lparr>errors := errors results' @
                      [''Error processing filing '' @ a @ '': '' @ exn_str e]\<rparr>)))"

fun filings_loop ::
  "services \<Rightarrow> string \<Rightarrow> string \<Rightarrow> company_result \<Rightarrow> filing list \<Rightarrow> exn + company_result" where
  "filings_loop env bucket_name symbol results [] = Inr results"
| "filings_loop env bucket_name symbol results (f # filings) =
     (case filing_body env bucket_name symbol results f of
        Inl e \<Rightarrow> Inl e
      | Inr results' \<Rightarrow> filings_loop env bucket_name symbol results' filings)"

definition process_company :: "services \<Rightarrow> string \<Rightarrow> string \<Rightarrow> exn + company_result" where
  "process_company env bucket_name symbol =
     (case get_filings env symbol of
        Inl e \<Rightarrow> Inl e
      | Inr filings \<Rightarrow>
          (let results = \<lparr>company_symbol = symbol, total_filings = int (length filings),
                          downloaded = 0, uploaded = 0, errors = []\<rparr>
           in if filings = [] then
                Inr (results\<lparr>errors := errors results @ [''No 10K filings found for '' @ symbol]\<rparr>)
              else filings_loop env bucket_name symbol results filings))"

subsection \<open>\<open>process_companies\<close>\<close>

text \<open>The entry the handler of the loop stores for a company that raised.\<close>

definition failed_company :: "string \<Rightarrow> exn \<Rightarrow> company_result" where
  "failed_company symbol e =
     \<lparr>company_symbol = symbol, total_filings = 0, downloaded = 0, uploaded = 0,
      errors = [''Error processing company '' @ symbol @ '': '' @ exn_str e]\<rparr>"

text \<open>The body of the loop over the symbols: the \<open>try\<close> and its handler.\<close>

definition company_body ::
  "services \<Rightarrow> string \<Rightarrow> overall_results \<Rightarrow> string \<Rightarrow> overall_results" where
  "company_body env bucket_name overall symbol =
     (case process_company env bucket_name symbol of
        Inr results \<Rightarrow>
          overall\<lparr>company_results := (company_results overall)(symbol \<mapsto> results),
                  companies_processed := companies_processed overall + 1,
                  total_filings_found := total_filings_found overall + total_filings results,
                  total_downloaded := total_downloaded overall + downloaded results,
                  total_uploaded := total_uploaded overall + uploaded results\<rparr>
      | Inl e \<Rightarrow>
          overall\<lparr>company_results := (company_results overall)(symbol \<mapsto> failed_company symbol e)\<rparr>)"

definition companies_loop :: "services \<Rightarrow> string \<Rightarrow> string list \<Rightarrow> overall_results" where
  "companies_loop env bucket_name symbols =
     foldl (company_body env bucket_name)
       \<lparr>companies_processed = 0, total_filings_found = 0, total_downloaded = 0,
        total_uploaded = 0, company_results = Map.empty\<rparr> symbols"

text \<open>After the loop the result is written to a file and returned.\<close>

definition process_companies :: "services \<Rightarrow> string \<Rightarrow> string list \<Rightarrow> exn + overall_results" where
  "process_companies env bucket_name symbols =
     (let overall = companies_loop env bucket_name symbols
      in case write_results env overall of
           Some e \<Rightarrow> Inl e
         | None \<Rightarrow> Inr overall)"

section \<open>What one observation and one trace contribute\<close>

text \<open>
  The records that one fetched observation adds to \<open>tool_usages\<close>: one record when the
  observation carries a name that is true, none otherwise.
\<close>

definition spec_tool_usages :: "(pyval \<Rightarrow> string) \<Rightarrow> observation \<Rightarrow> tool_usage list" where
  "spec_tool_usages repr obs =
     (case obs_name obs of
        None \<Rightarrow> []
      | Some n \<Rightarrow>
          (if truthy n then
             [\<lparr>tool_name = py_str repr n, tool_input = or_none (obs_input obs),
               tool_output = or_none (obs_output obs)\<rparr>]
           else []))"

text \<open>
  The strings that one fetched observation adds to \<open>retrieved_contexts\<close>: the text of
  the output when the name is true, its lowercased text contains \<open>retrieve\<close> and the
  output is true; none otherwise.
\<close>

definition spec_contexts :: "(pyval \<Rightarrow> string) \<Rightarrow> observation \<Rightarrow> string list" where
  "spec_contexts repr obs =
     (case obs_name obs of
        None \<Rightarrow> []
      | Some n \<Rightarrow>
          (if truthy n \<and> str_contains ''retrieve'' (lower (py_str repr n)) \<and>
              truthy (or_none (obs_output obs))
           then [py_str repr (or_none (obs_output obs))]
           else []))"

text \<open>
  The observations the loop of \<open>extract_span_components\<close> gets to see: those of the
  identifiers in front of the first one whose fetch raises.
\<close>

fun fetched :: "langfuse \<Rightarrow> string list \<Rightarrow> observation list" where
  "fetched lf [] = []"
| "fetched lf (obsID # rest) =
     (case lf obsID of Inl e \<Rightarrow> [] | Inr observations \<Rightarrow> observations @ fetched lf rest)"

text \<open>
  The shapes of \<open>trace.input\<close> on which the input block raises nothing: anything but a
  dictionary whose \<open>args\<close> entry is true and neither a list nor a string.
\<close>

fun input_safe :: "pyval option \<Rightarrow> bool" where
  "input_safe (Some (PDict d)) =
     (case map_of d ''args'' of
        None \<Rightarrow> True
      | Some (PList xs) \<Rightarrow> True
      | Some (PStr s) \<Rightarrow> True
      | Some a \<Rightarrow> \<not> truthy a)"
| "input_safe v = True"

text \<open>The values on which \<open>'agent.tools' in attributes\<close> and the read after it raise nothing.\<close>

fun attributes_safe :: "pyval \<Rightarrow> bool" where
  "attributes_safe (PDict d) = True"
| "attributes_safe (PStr s) = (\<not> str_contains ''agent.tools'' s)"
| "attributes_safe (PList xs) = (PStr ''agent.tools'' \<notin> set xs)"
| "attributes_safe v = False"

text \<open>
  The shapes of \<open>trace.metadata\<close> on which the metadata block raises nothing: no
  attribute, a value that is false, a dictionary without \<open>attributes\<close> or with a safe
  one, a string or a list that does not contain \<open>attributes\<close>.
\<close>

fun metadata_safe :: "pyval option \<Rightarrow> bool" where
  "metadata_safe None = True"
| "metadata_safe (Some (PDict d)) =
     (case map_of d ''attributes'' of None \<Rightarrow> True | Some a \<Rightarrow> attributes_safe a)"
| "metadata_safe (Some (PStr s)) = (\<not> str_contains ''attributes'' s)"
| "metadata_safe (Some (PList xs)) = (PStr ''attributes'' \<notin> set xs)"
| "metadata_safe (Some v) = (\<not> truthy v)"

section \<open>Example inputs\<close>

text \<open>A formatting of the values that are no strings, for the examples.\<close>

definition repr_ex :: "pyval \<Rightarrow> string" where
  "repr_ex v = ''<value>''"

definition obs_retrieve :: observation where
  "obs_retrieve = \<lparr>obs_name = Some (PStr ''RetrieveDocs''), obs_input = Some (PStr ''q''),
                   obs_output = Some (PStr ''doc text'')\<rparr>"

definition obs_summarize :: observation where
  "obs_summarize = \<lparr>obs_name = Some (PStr ''Summarize''), obs_input = None,
                    obs_output = Some (PStr ''short'')\<rparr>"

text \<open>A fetcher that knows \<open>o1\<close> and \<open>o3\<close> and raises on every other identifier.\<close>

definition lf_second_fails :: langfuse where
  "lf_second_fails obsID =
     (if obsID = ''o1'' then Inr [obs_retrieve]
      else if obsID = ''o3'' then Inr [obs_summarize]
      else Inl ''not found'')"

text \<open>A fetcher that knows \<open>o2\<close> and \<open>o3\<close> and raises on every other identifier.\<close>

definition lf_first_fails :: langfuse where
  "lf_first_fails obsID =
     (if obsID = ''o2'' then Inr [obs_retrieve]
      else if obsID = ''o3'' then Inr [obs_summarize]
      else Inl ''not found'')"

text \<open>A fetcher that returns both observations for every identifier.\<close>

definition lf_all :: langfuse where
  "lf_all obsID = Inr [obs_retrieve, obs_summarize]"

definition trace_three :: trace where
  "trace_three = \<lparr>trace_id = ''t1'', trace_input = Some (PStr ''What is the revenue?''),
                  trace_output = Some (PStr ''It is 42''), trace_metadata = None,
                  trace_observations = [''o1'', ''o2'', ''o3'']\<rparr>"

text \<open>A trace whose input is \<open>{"args": []}\<close>.\<close>

definition trace_empty_args :: trace where
  "trace_empty_args = \<lparr>trace_id = ''t2'', trace_input = Some (PDict [(''args'', PList [])]),
                       trace_output = None, trace_metadata = None, trace_observations = []\<rparr>"

text \<open>A trace whose input is \<open>{"args": 5}\<close>.\<close>

definition trace_int_args :: trace where
  "trace_int_args = \<lparr>trace_id = ''t3'', trace_input = Some (PDict [(''args'', PInt 5)]),
                     trace_output = None, trace_metadata = None, trace_observations = []\<rparr>"

text \<open>A trace without input.\<close>

definition trace_no_input :: trace where
  "trace_no_input = \<lparr>trace_id = ''t4'', trace_input = Some PNone,
                     trace_output = Some (PStr ''nothing asked''), trace_metadata = None,
                     trace_observations = []\<rparr>"

text \<open>A filing that downloads and uploads, and one whose rendering fails.\<close>

definition filing_ok :: filing where
  "filing_ok = \<lparr>linkToFilingDetails = Some ''u1'', periodOfReport = Some ''2020-12-31'',
                accessionNo = Some ''a1''\<rparr>"

definition filing_unrendered :: filing where
  "filing_unrendered = \<lparr>linkToFilingDetails = Some ''u2'', periodOfReport = Some ''2019-12-31'',
                        accessionNo = Some ''a2''\<rparr>"

text \<open>Services that know the ticker \<open>AAPL\<close> only and render the address \<open>u1\<close> only.\<close>

definition query_ex :: "string \<Rightarrow> exn + filing list" where
  "query_ex symbol =
     (if symbol = ''AAPL'' then Inr [filing_ok, filing_unrendered] else Inl (Raised ''api error''))"

definition render_ex :: "string \<Rightarrow> exn + string" where
  "render_ex url = (if url = ''u1'' then Inr ''<html>'' else Inl (Raised ''render failed''))"

definition save_ex :: "string \<Rightarrow> string \<Rightarrow> string \<Rightarrow> string \<Rightarrow> exn + string" where
  "save_ex year symbol filename html_content =
     Inr (''temp_10k/'' @ year @ ''/'' @ symbol @ ''/'' @ filename)"

definition upload_ex :: "string \<Rightarrow> string \<Rightarrow> string \<Rightarrow> string \<Rightarrow> exn option" where
  "upload_ex s3_bucket local_file_path symbol year = None"

definition write_ex :: "overall_results \<Rightarrow> exn option" where
  "write_ex overall = None"

definition env_ex :: services where
  "env_ex = \<lparr>query_api = query_ex, render_api = render_ex, save_file = save_ex,
             s3_client = None, upload_file = upload_ex, write_results = write_ex\<rparr>"

section \<open>Properties of the catalog lookup\<close>

text \<open>The substring test is the contiguous sublist relation of the library.\<close>

lemma str_contains_sublist: "str_contains sub s \<longleftrightarrow> sublist sub s"
  by (induction s) (auto simp: sublist_Cons_right)

lemma query_matches_sublist:
  "query_matches ui tc \<longleftrightarrow> sublist (lower (query tc)) (lower ui)"
  by (simp add: query_matches_def str_contains_sublist)

lemma match_skip:
  "\<forall>p\<in>set pre. \<not> query_matches ui p \<Longrightarrow>
     match_trace_to_test_case ui (pre @ rest) = match_trace_to_test_case ui rest"
  by (induction pre) auto

text \<open>
  Claim C3. \<open>match_trace_to_test_case\<close> returns the expected answer of the first entry
  of the catalog, in catalog order, whose lowercased query is a substring of the
  lowercased user input: an entry that matches wins over every later entry, whether
  these match or not. When no entry matches the result is \<open>None\<close>, not an error.
\<close>

theorem match_trace_to_test_case_first_match:
  "((\<forall>p\<in>set pre. \<not> sublist (lower (query p)) (lower ui)) \<and>
      sublist (lower (query tc)) (lower ui)
      \<longrightarrow> match_trace_to_test_case ui (pre @ tc # post) = Some (expected_answer tc)) \<and>
   ((\<forall>p\<in>set tcs. \<not> sublist (lower (query p)) (lower ui))
      \<longrightarrow> match_trace_to_test_case ui tcs = None)"
proof (intro conjI impI)
  assume h: "(\<forall>p\<in>set pre. \<not> sublist (lower (query p)) (lower ui)) \<and>
      sublist (lower (query tc)) (lower ui)"
  then have "\<forall>p\<in>set pre. \<not> query_matches ui p" and "query_matches ui tc"
    by (simp_all add: query_matches_sublist)
  then show "match_trace_to_test_case ui (pre @ tc # post) = Some (expected_answer tc)"
    by (simp add: match_skip)
next
  assume "\<forall>p\<in>set tcs. \<not> sublist (lower (query p)) (lower ui)"
  then have "\<forall>p\<in>set tcs. \<not> query_matches ui p"
    by (simp add: query_matches_sublist)
  from match_skip [OF this, of "[]"]
  show "match_trace_to_test_case ui tcs = None" by simp
qed

theorem match_trace_to_test_case_first_match_witness:
  "match_trace_to_test_case ''What is the revenue?''
     [\<lparr>query = ''Margin'', expected_answer = ''7''\<rparr>,
      \<lparr>query = ''Revenue'', expected_answer = ''42''\<rparr>,
      \<lparr>query = ''the'', expected_answer = ''0''\<rparr>] = Some ''42'' \<and>
   match_trace_to_test_case ''unrelated'' [\<lparr>query = ''Revenue'', expected_answer = ''42''\<rparr>] = None"
proof -
  have h1: "(\<forall>p\<in>set [\<lparr>query = ''Margin'', expected_answer = ''7''\<rparr>].
               \<not> sublist (lower (query p)) (lower ''What is the revenue?'')) \<and>
            sublist (lower (query \<lparr>query = ''Revenue'', expected_answer = ''42''\<rparr>))
              (lower ''What is the revenue?'')"
    by code_simp
  have h2: "\<forall>p\<in>set [\<lparr>query = ''Revenue'', expected_answer = ''42''\<rparr>].
               \<not> sublist (lower (query p)) (lower ''unrelated'')"
    by code_simp
  from match_trace_to_test_case_first_match
         [of "[\<lparr>query = ''Margin'', expected_answer = ''7''\<rparr>]" "''What is the revenue?''"
             "\<lparr>query = ''Revenue'', expected_answer = ''42''\<rparr>"
             "[\<lparr>query = ''the'', expected_answer = ''0''\<rparr>]"] h1
  have a: "match_trace_to_test_case ''What is the revenue?''
     ([\<lparr>query = ''Margin'', expected_answer = ''7''\<rparr>] @
      \<lparr>query = ''Revenue'', expected_answer = ''42''\<rparr> #
      [\<lparr>query = ''the'', expected_answer = ''0''\<rparr>]) = Some ''42''"
    by simp
  from match_trace_to_test_case_first_match
         [of "[]" "''unrelated''" undefined "[]"
             "[\<lparr>query = ''Revenue'', expected_answer = ''42''\<rparr>]"] h2
  have b: "match_trace_to_test_case ''unrelated''
             [\<lparr>query = ''Revenue'', expected_answer = ''42''\<rparr>] = None"
    by blast
  from a b show ?thesis by simp
qed

text \<open>
  Claim C9. When the catalog holds an entry whose query is the empty string, the lookup
  never returns \<open>None\<close>: the catalog splits at an entry \<open>m\<close> that matches, no entry
  before \<open>m\<close> matches or has an empty query, and the result is the answer of \<open>m\<close>. So
  the entry found is the first match, which is the first empty query at the latest.
\<close>

theorem empty_query_always_matches:
  "tc \<in> set tcs \<Longrightarrow> query tc = [] \<Longrightarrow>
     \<exists>pre m post. tcs = pre @ m # post \<and>
        (\<forall>p\<in>set pre. \<not> sublist (lower (query p)) (lower ui) \<and> query p \<noteq> []) \<and>
        sublist (lower (query m)) (lower ui) \<and>
        match_trace_to_test_case ui tcs = Some (expected_answer m)"
proof (induction tcs)
  case Nil
  then show ?case by simp
next
  case (Cons a tcs)
  show ?case
  proof (cases "query_matches ui a")
    case True
    then have "a # tcs = [] @ a # tcs \<and>
        (\<forall>p\<in>set []. \<not> sublist (lower (query p)) (lower ui) \<and> query p \<noteq> []) \<and>
        sublist (lower (query a)) (lower ui) \<and>
        match_trace_to_test_case ui (a # tcs) = Some (expected_answer a)"
      by (simp add: query_matches_sublist)
    then show ?thesis by blast
  next
    case False
    then have na: "query a \<noteq> []"
      by (auto simp: query_matches_sublist lower_def)
    with Cons.prems have "tc \<in> set tcs" by auto
    from Cons.IH [OF this Cons.prems(2)] obtain pre m post where
      ih: "tcs = pre @ m # post"
        "\<forall>p\<in>set pre. \<not> sublist (lower (query p)) (lower ui) \<and> query p \<noteq> []"
        "sublist (lower (query m)) (lower ui)"
        "match_trace_to_test_case ui tcs = Some (expected_answer m)"
      by blast
    from False na ih have "a # tcs = (a # pre) @ m # post \<and>
        (\<forall>p\<in>set (a # pre). \<not> sublist (lower (query p)) (lower ui) \<and> query p \<noteq> []) \<and>
        sublist (lower (query m)) (lower ui) \<and>
        match_trace_to_test_case ui (a # tcs) = Some (expected_answer m)"
      by (simp add: query_matches_sublist)
    then show ?thesis by blast
  qed
qed

theorem empty_query_always_matches_witness:
  "\<exists>pre m post.
     [\<lparr>query = ''Revenue'', expected_answer = ''42''\<rparr>,
      \<lparr>query = '''', expected_answer = ''fallback''\<rparr>] = pre @ m # post \<and>
     (\<forall>p\<in>set pre. \<not> sublist (lower (query p)) (lower ''hello'') \<and> query p \<noteq> []) \<and>
     sublist (lower (query m)) (lower ''hello'') \<and>
     match_trace_to_test_case ''hello''
       [\<lparr>query = ''Revenue'', expected_answer = ''42''\<rparr>,
        \<lparr>query = '''', expected_answer = ''fallback''\<rparr>] = Some (expected_answer m)"
proof -
  have h1: "\<lparr>query = '''', expected_answer = ''fallback''\<rparr> \<in>
              set [\<lparr>query = ''Revenue'', expected_answer = ''42''\<rparr>,
                   \<lparr>query = '''', expected_answer = ''fallback''\<rparr>]"
    by simp
  have h2: "query \<lparr>query = '''', expected_answer = ''fallback''\<rparr> = []"
    by simp
  show ?thesis
    by (rule empty_query_always_matches [OF h1 h2])
qed

section \<open>Properties of the turns\<close>

lemma fold_messages_body:
  "fold (messages_body us rs) is acc =
     acc @ concat (map (\<lambda>i. (if i < length us then [\<lparr>role = ''user'', content = us ! i\<rparr>] else []) @
                           (if i < length rs then [\<lparr>role = ''assistant'', content = rs ! i\<rparr>] else [])) is)"
  by (induction "is" arbitrary: acc) (simp_all add: messages_body_def)

lemma length_turns:
  "length (concat (map (\<lambda>i. (if i < a then [f i] else []) @ (if i < b then [g i] else [])) [0..<n]))
     = min a n + min b n"
  by (induction n) (auto simp: min_def)

text \<open>
  Claim C2. The turns are built by running the index \<open>i\<close> from \<open>0\<close> to
  \<open>max (len user_inputs) (len agent_responses) - 1\<close> and appending, at each \<open>i\<close>, the
  user turn \<open>user_inputs[i]\<close> when \<open>i\<close> is below the length of \<open>user_inputs\<close> and then
  the assistant turn \<open>agent_responses[i]\<close> when \<open>i\<close> is below the length of
  \<open>agent_responses\<close>. A missing side adds no turn, so there are exactly as many turns as
  inputs and responses together. The inputs \<open>a, b\<close> with the response \<open>x\<close> give
  \<open>user a, assistant x, user b\<close>.
\<close>

theorem build_messages_interleaves:
  "build_messages us rs =
     concat (map (\<lambda>i. (if i < length us then [\<lparr>role = ''user'', content = us ! i\<rparr>] else []) @
                      (if i < length rs then [\<lparr>role = ''assistant'', content = rs ! i\<rparr>] else []))
               [0 ..< max (length us) (length rs)]) \<and>
   length (build_messages us rs) = length us + length rs \<and>
   build_messages [''a'', ''b''] [''x''] =
     [\<lparr>role = ''user'', content = ''a''\<rparr>, \<lparr>role = ''assistant'', content = ''x''\<rparr>,
      \<lparr>role = ''user'', content = ''b''\<rparr>]"
proof (intro conjI)
  show eq: "build_messages us rs =
     concat (map (\<lambda>i. (if i < length us then [\<lparr>role = ''user'', content = us ! i\<rparr>] else []) @
                      (if i < length rs then [\<lparr>role = ''assistant'', content = rs ! i\<rparr>] else []))
               [0 ..< max (length us) (length rs)])"
    by (simp add: build_messages_def fold_messages_body)
  show "length (build_messages us rs) = length us + length rs"
    unfolding eq length_turns by simp
  show "build_messages [''a'', ''b''] [''x''] =
     [\<lparr>role = ''user'', content = ''a''\<rparr>, \<lparr>role = ''assistant'', content = ''x''\<rparr>,
      \<lparr>role = ''user'', content = ''b''\<rparr>]"
    by code_simp
qed

section \<open>Properties of the component extraction\<close>

text \<open>
  The loop over the observations appends, for every observation it gets to see and in
  their order, what that observation contributes.
\<close>

lemma obs_body_spec:
  "obs_body repr (tools, ctxs) obs =
     (tools @ spec_tool_usages repr obs, ctxs @ spec_contexts repr obs)"
  by (simp add: spec_tool_usages_def spec_contexts_def Let_def split: option.splits)

lemma foldl_obs_body:
  "foldl (obs_body repr) (tools, ctxs) os =
     (tools @ concat (map (spec_tool_usages repr) os), ctxs @ concat (map (spec_contexts repr) os))"
  by (induction os arbitrary: tools ctxs) (simp_all add: obs_body_spec del: obs_body.simps)

lemma obs_loop_fetched:
  "obs_loop repr lf ids (tools, ctxs) =
     (tools @ concat (map (spec_tool_usages repr) (fetched lf ids)),
      ctxs @ concat (map (spec_contexts repr) (fetched lf ids)))"
  by (induction ids arbitrary: tools ctxs) (simp_all add: foldl_obs_body split: sum.splits)

lemma fetched_all:
  "map lf ids = map Inr oss \<Longrightarrow> fetched lf ids = concat oss"
  by (induction ids arbitrary: oss) auto

lemma fetched_until_failure:
  "map lf pre = map Inr oss \<Longrightarrow> lf bad = Inl e \<Longrightarrow> fetched lf (pre @ bad # post) = concat oss"
  by (induction pre arbitrary: oss) auto

lemma extract_span_components_eq:
  "extract_span_components repr lf t =
     (case input_block repr (trace_input t) of
        Inl e \<Rightarrow> Inl e
      | Inr us \<Rightarrow>
          (case metadata_block (trace_metadata t) of
             Inl e \<Rightarrow> Inl e
           | Inr avail \<Rightarrow>
               Inr \<lparr>user_inputs = us,
                    agent_responses = output_block repr (trace_output t),
                    retrieved_contexts =
                      concat (map (spec_contexts repr) (fetched lf (trace_observations t))),
                    tool_usages =
                      concat (map (spec_tool_usages repr) (fetched lf (trace_observations t))),
                    available_tools = (case avail of None \<Rightarrow> PList [] | Some v \<Rightarrow> v)\<rparr>))"
  by (simp add: extract_span_components_def obs_loop_fetched split: sum.splits)

lemma truthy_len_pos: "truthy a \<Longrightarrow> py_len a = Inr n \<Longrightarrow> 0 < n"
  by (cases a) auto

lemma input_block_safe: "(\<exists>us. input_block repr v = Inr us) \<longleftrightarrow> input_safe v"
proof (cases v)
  case None
  then show ?thesis by simp
next
  case (Some x)
  show ?thesis
  proof (cases x)
    case (PDict d)
    show ?thesis
    proof (cases "map_of d ''args''")
      case None
      with Some PDict show ?thesis by simp
    next
      case (Some a)
      with \<open>v = Some x\<close> PDict show ?thesis
        by (cases a rule: py_getitem0.cases) (auto split: sum.splits)
    qed
  qed (use Some in simp_all)
qed

lemma attributes_block:
  "(\<exists>r. (case py_in ''agent.tools'' a of
            Inl e \<Rightarrow> Inl e
          | Inr False \<Rightarrow> Inr None
          | Inr True \<Rightarrow> (case py_getitem a ''agent.tools'' of
                           Inl e \<Rightarrow> Inl e | Inr tools \<Rightarrow> Inr (Some tools))) = (Inr r :: py_error + pyval option))
     \<longleftrightarrow> attributes_safe a"
proof (cases a)
  case (PDict d)
  then show ?thesis by (cases "map_of d ''agent.tools''") auto
qed auto

lemma metadata_block_safe: "(\<exists>a. metadata_block v = Inr a) \<longleftrightarrow> metadata_safe v"
proof (cases v)
  case None
  then show ?thesis by simp
next
  case (Some m)
  show ?thesis
  proof (cases m)
    case (PDict d)
    show ?thesis
    proof (cases "map_of d ''attributes''")
      case None
      with Some PDict show ?thesis by auto
    next
      case (Some a)
      have "d \<noteq> []" using Some by auto
      with \<open>v = Some m\<close> PDict Some attributes_block [of a] show ?thesis
        by (simp split: sum.splits bool.splits)
    qed
  qed (use Some in \<open>auto split: if_splits\<close>)
qed

section \<open>Properties of the sample builder\<close>

lemma trace_body_eq:
  "extract_span_components repr lf t = Inr c \<Longrightarrow>
   trace_body repr lf tcs \<lparr>multi_turn_samples = ss, trace_sample_mapping = ms\<rparr> t =
     Inr (if user_inputs c \<noteq> [] then
            \<lparr>multi_turn_samples = ss @
               [\<lparr>user_input = build_messages (user_inputs c) (agent_responses c),
                 reference = match_trace_to_test_case (hd (user_inputs c)) tcs\<rparr>],
             trace_sample_mapping = ms @
               [\<lparr>m_trace_id = trace_id t, m_type = ''multi_turn'', m_index = int (length ss)\<rparr>]\<rparr>
          else \<lparr>multi_turn_samples = ss, trace_sample_mapping = ms\<rparr>)"
  by (simp add: trace_body_def Let_def)

lemma trace_body_raises:
  "extract_span_components repr lf t = Inl e \<Longrightarrow> trace_body repr lf tcs acc t = Inl e"
  by (simp add: trace_body_def)

lemma traces_loop_eq:
  "map (extract_span_components repr lf) traces = map Inr comps \<Longrightarrow>
   traces_loop repr lf tcs \<lparr>multi_turn_samples = ss, trace_sample_mapping = ms\<rparr> traces =
     Inr \<lparr>multi_turn_samples = ss @
            map (\<lambda>(t, c). \<lparr>user_input = build_messages (user_inputs c) (agent_responses c),
                            reference = match_trace_to_test_case (hd (user_inputs c)) tcs\<rparr>)
              (filter (\<lambda>(t, c). user_inputs c \<noteq> []) (zip traces comps)),
          trace_sample_mapping = ms @
            map (\<lambda>(i, (t, c)). \<lparr>m_trace_id = trace_id t, m_type = ''multi_turn'', m_index = int i\<rparr>)
              (enumerate (length ss) (filter (\<lambda>(t, c). user_inputs c \<noteq> []) (zip traces comps)))\<rparr>"
proof (induction traces arbitrary: comps ss ms)
  case Nil
  then show ?case by simp
next
  case (Cons t traces)
  then obtain c cs where comps: "comps = c # cs"
    and c: "extract_span_components repr lf t = Inr c"
    and cs: "map (extract_span_components repr lf) traces = map Inr cs"
    by (cases comps) auto
  show ?case
  proof (cases "user_inputs c = []")
    case True
    with Cons.IH [OF cs] c comps show ?thesis
      by (simp add: trace_body_eq)
  next
    case False
    with Cons.IH [OF cs] c comps show ?thesis
      by (simp add: trace_body_eq)
  qed
qed


text \<open>
  Claim C1, amended. On a list of traces for each of which the extraction returns,
  \<open>process_traces\<close> returns, and its two lists are parallel: the traces whose derived
  \<open>user_inputs\<close> is not empty contribute, in their order, one sample and one mapping
  entry each, the entry carrying the identifier of the trace, the type \<open>multi_turn\<close> and
  the position of the sample in the list of samples; a trace whose \<open>user_inputs\<close> is
  empty contributes nothing and raises nothing. So both lists have the same length and
  the entry at position \<open>i\<close> has index \<open>i\<close>.
\<close>

theorem process_traces_one_sample_per_input:
  assumes "map (extract_span_components repr lf) traces = map Inr comps"
    and "kept = filter (\<lambda>(t, c). user_inputs c \<noteq> []) (zip traces comps)"
  shows "\<exists>r. process_traces repr lf tcs traces = Inr r \<and>
     multi_turn_samples r =
       map (\<lambda>(t, c). \<lparr>user_input = build_messages (user_inputs c) (agent_responses c),
                       reference = match_trace_to_test_case (hd (user_inputs c)) tcs\<rparr>) kept \<and>
     trace_sample_mapping r =
       map (\<lambda>(i, (t, c)). \<lparr>m_trace_id = trace_id t, m_type = ''multi_turn'', m_index = int i\<rparr>)
         (enumerate 0 kept) \<and>
     length (trace_sample_mapping r) = length (multi_turn_samples r) \<and>
     (\<forall>i < length (trace_sample_mapping r). m_index (trace_sample_mapping r ! i) = int i)"
proof -
  define r where "r = \<lparr>multi_turn_samples =
       map (\<lambda>(t, c). \<lparr>user_input = build_messages (user_inputs c) (agent_responses c),
                       reference = match_trace_to_test_case (hd (user_inputs c)) tcs\<rparr>) kept,
     trace_sample_mapping =
       map (\<lambda>(i, (t, c)). \<lparr>m_trace_id = trace_id t, m_type = ''multi_turn'', m_index = int i\<rparr>)
         (enumerate 0 kept)\<rparr>"
  have run: "process_traces repr lf tcs traces = Inr r"
    unfolding r_def process_traces_def assms(2)
    using traces_loop_eq [OF assms(1), of tcs "[]" "[]"] by simp
  have s: "multi_turn_samples r =
       map (\<lambda>(t, c). \<lparr>user_input = build_messages (user_inputs c) (agent_responses c),
                       reference = match_trace_to_test_case (hd (user_inputs c)) tcs\<rparr>) kept"
    by (simp add: r_def)
  have m: "trace_sample_mapping r =
       map (\<lambda>(i, (t, c)). \<lparr>m_trace_id = trace_id t, m_type = ''multi_turn'', m_index = int i\<rparr>)
         (enumerate 0 kept)"
    by (simp add: r_def)
  have len: "length (trace_sample_mapping r) = length (multi_turn_samples r)"
    unfolding s m by simp
  have idx: "\<forall>i < length (trace_sample_mapping r). m_index (trace_sample_mapping r ! i) = int i"
    unfolding m by (simp add: nth_enumerate_eq case_prod_beta)
  from run s m len idx show ?thesis by blast
qed


theorem process_traces_one_sample_per_input_witness:
  "process_traces repr_ex lf_first_fails [] [trace_no_input, trace_three] =
     Inr \<lparr>multi_turn_samples =
            [\<lparr>user_input = [\<lparr>role = ''user'', content = ''What is the revenue?''\<rparr>,
                            \<lparr>role = ''assistant'', content = ''It is 42''\<rparr>],
              reference = None\<rparr>],
          trace_sample_mapping =
            [\<lparr>m_trace_id = ''t1'', m_type = ''multi_turn'', m_index = 0\<rparr>]\<rparr>"
proof -
  define c1 where "c1 = \<lparr>user_inputs = [], agent_responses = [''nothing asked''],
      retrieved_contexts = [], tool_usages = [], available_tools = PList []\<rparr>"
  define c2 where "c2 = \<lparr>user_inputs = [''What is the revenue?''],
      agent_responses = [''It is 42''], retrieved_contexts = [], tool_usages = [],
      available_tools = PList []\<rparr>"
  have h: "map (extract_span_components repr_ex lf_first_fails) [trace_no_input, trace_three] =
    map Inr [c1, c2]"
    by (simp add: extract_span_components_eq trace_no_input_def trace_three_def
          lf_first_fails_def c1_def c2_def)
  have k: "[(trace_three, c2)] =
      filter (\<lambda>(t, c). user_inputs c \<noteq> []) (zip [trace_no_input, trace_three] [c1, c2])"
    by (simp add: c1_def c2_def)
  have bm: "build_messages [''What is the revenue?''] [''It is 42''] =
      [\<lparr>role = ''user'', content = ''What is the revenue?''\<rparr>,
       \<lparr>role = ''assistant'', content = ''It is 42''\<rparr>]"
    by code_simp
  from process_traces_one_sample_per_input [OF h k, of "[]"]
  obtain r where
    run: "process_traces repr_ex lf_first_fails [] [trace_no_input, trace_three] = Inr r" and
    ss: "multi_turn_samples r =
       map (\<lambda>(t, c). \<lparr>user_input = build_messages (user_inputs c) (agent_responses c),
                       reference = match_trace_to_test_case (hd (user_inputs c)) []\<rparr>)
         [(trace_three, c2)]" and
    ms: "trace_sample_mapping r =
       map (\<lambda>(i, (t, c)). \<lparr>m_trace_id = trace_id t, m_type = ''multi_turn'', m_index = int i\<rparr>)
         (enumerate 0 [(trace_three, c2)])"
    by blast
  have s2: "multi_turn_samples r =
            [\<lparr>user_input = [\<lparr>role = ''user'', content = ''What is the revenue?''\<rparr>,
                            \<lparr>role = ''assistant'', content = ''It is 42''\<rparr>],
              reference = None\<rparr>]"
    unfolding ss by (simp add: c2_def bm)
  have m2: "trace_sample_mapping r =
            [\<lparr>m_trace_id = ''t1'', m_type = ''multi_turn'', m_index = 0\<rparr>]"
    unfolding ms by (simp add: trace_three_def)
  have "r = \<lparr>multi_turn_samples = multi_turn_samples r,
             trace_sample_mapping = trace_sample_mapping r\<rparr>"
    by simp
  then have "r = \<lparr>multi_turn_samples =
            [\<lparr>user_input = [\<lparr>role = ''user'', content = ''What is the revenue?''\<rparr>,
                            \<lparr>role = ''assistant'', content = ''It is 42''\<rparr>],
              reference = None\<rparr>],
          trace_sample_mapping =
            [\<lparr>m_trace_id = ''t1'', m_type = ''multi_turn'', m_index = 0\<rparr>]\<rparr>"
    unfolding s2 m2 .
  with run show ?thesis by (simp only:)
qed

text \<open>
  Claim C1 as stated fails on a list that holds a trace on which the extraction raises:
  the first trace has a user input, the second has the input \<open>{"args": 5}\<close>, and
  \<open>process_traces\<close> raises, so the first trace gets neither sample nor mapping entry.
\<close>

theorem aborted_batch_counterexample:
  "extract_span_components repr_ex lf_first_fails trace_three =
     Inr \<lparr>user_inputs = [''What is the revenue?''], agent_responses = [''It is 42''],
          retrieved_contexts = [], tool_usages = [], available_tools = PList []\<rparr> \<and>
   process_traces repr_ex lf_first_fails [] [trace_three, trace_int_args] = Inl TypeError"
proof -
  have a: "extract_span_components repr_ex lf_first_fails trace_int_args = Inl TypeError"
    by (simp add: extract_span_components_eq trace_int_args_def)
  have b: "extract_span_components repr_ex lf_first_fails trace_three =
     Inr \<lparr>user_inputs = [''What is the revenue?''], agent_responses = [''It is 42''],
          retrieved_contexts = [], tool_usages = [], available_tools = PList []\<rparr>"
    by (simp add: extract_span_components_eq trace_three_def lf_first_fails_def)
  have c: "process_traces repr_ex lf_first_fails [] [trace_three, trace_int_args] = Inl TypeError"
    by (simp add: process_traces_def trace_body_eq [OF b] trace_body_raises [OF a])
  from b c show ?thesis by (rule conjI)
qed

lemma input_block_cases:
  assumes r: "input_block repr v = Inr us"
  shows "us = (case v of
           None \<Rightarrow> []
         | Some PNone \<Rightarrow> []
         | Some (PStr s) \<Rightarrow> [s]
         | Some (PDict d) \<Rightarrow>
             (case map_of d ''args'' of
                None \<Rightarrow> [py_str repr (PDict d)]
              | Some (PList (x # xs)) \<Rightarrow> [py_str repr x]
              | Some (PStr (ch # s)) \<Rightarrow> [[ch]]
              | Some a \<Rightarrow> [])
         | Some w \<Rightarrow> [py_str repr w])"
proof (cases v)
  case None
  with r show ?thesis by simp
next
  case (Some x)
  show ?thesis
  proof (cases x)
    case (PDict d)
    show ?thesis
    proof (cases "map_of d ''args''")
      case None
      with Some PDict r show ?thesis by simp
    next
      case (Some a)
      with \<open>v = Some x\<close> PDict r show ?thesis
        by (cases a rule: py_getitem0.cases) (auto split: sum.splits if_splits)
    qed
  qed (use Some r in auto)
qed

text \<open>
  Claim C5, amended. Whenever the extraction returns, \<open>user_inputs\<close> has at most one
  entry, fixed by \<open>trace.input\<close>: no entry when the input is absent or \<open>None\<close>; the
  string itself when the input is a string; for a dictionary without the key \<open>args\<close>
  its text; for a dictionary with the key \<open>args\<close> the text of the first element when
  the value is a list that is not empty, the first character when the value is a
  string that is not empty, and no entry for every other value that lets the extraction
  return (the empty list among them); the text of the input in every other case.
\<close>

theorem user_inputs_derivation:
  assumes "extract_span_components repr lf t = Inr c"
  shows "length (user_inputs c) \<le> 1 \<and>
     user_inputs c =
       (case trace_input t of
          None \<Rightarrow> []
        | Some PNone \<Rightarrow> []
        | Some (PStr s) \<Rightarrow> [s]
        | Some (PDict d) \<Rightarrow>
            (case map_of d ''args'' of
               None \<Rightarrow> [py_str repr (PDict d)]
             | Some (PList (x # xs)) \<Rightarrow> [py_str repr x]
             | Some (PStr (ch # s)) \<Rightarrow> [[ch]]
             | Some a \<Rightarrow> [])
        | Some w \<Rightarrow> [py_str repr w])"
proof -
  from assms have ib: "input_block repr (trace_input t) = Inr (user_inputs c)"
    by (auto simp: extract_span_components_eq split: sum.splits)
  have eq: "user_inputs c =
       (case trace_input t of
          None \<Rightarrow> []
        | Some PNone \<Rightarrow> []
        | Some (PStr s) \<Rightarrow> [s]
        | Some (PDict d) \<Rightarrow>
            (case map_of d ''args'' of
               None \<Rightarrow> [py_str repr (PDict d)]
             | Some (PList (x # xs)) \<Rightarrow> [py_str repr x]
             | Some (PStr (ch # s)) \<Rightarrow> [[ch]]
             | Some a \<Rightarrow> [])
        | Some w \<Rightarrow> [py_str repr w])"
    by (rule input_block_cases [OF ib])
  have len: "length (user_inputs c) \<le> 1"
    unfolding eq by (simp split: option.splits pyval.splits list.splits)
  from len eq show ?thesis by (rule conjI)
qed


theorem user_inputs_derivation_witness:
  "extract_span_components repr_ex lf_all trace_empty_args =
     Inr \<lparr>user_inputs = [], agent_responses = [], retrieved_contexts = [], tool_usages = [],
          available_tools = PList []\<rparr> \<and>
   length (user_inputs \<lparr>user_inputs = [], agent_responses = [], retrieved_contexts = [],
          tool_usages = [], available_tools = PList []\<rparr>) \<le> 1"
proof -
  have h: "extract_span_components repr_ex lf_all trace_empty_args =
     Inr \<lparr>user_inputs = [], agent_responses = [], retrieved_contexts = [], tool_usages = [],
          available_tools = PList []\<rparr>"
    by (simp add: extract_span_components_eq trace_empty_args_def)
  from user_inputs_derivation [OF h] have
    "length (user_inputs \<lparr>user_inputs = [], agent_responses = [], retrieved_contexts = [],
          tool_usages = [], available_tools = PList []\<rparr>) \<le> 1"
    by (rule conjunct1)
  with h show ?thesis by (rule conjI)
qed

text \<open>
  Claim C5 as stated fails on the input \<open>{"args": []}\<close>: it is a dictionary without a
  list under \<open>args\<close> that is not empty, so the claim asks for the singleton of its text,
  and the code returns no user input at all.
\<close>

theorem empty_args_counterexample:
  "trace_input trace_empty_args = Some (PDict [(''args'', PList [])]) \<and>
   extract_span_components repr_ex lf_all trace_empty_args =
     Inr \<lparr>user_inputs = [], agent_responses = [], retrieved_contexts = [], tool_usages = [],
          available_tools = PList []\<rparr> \<and>
   [py_str repr_ex (PDict [(''args'', PList [])])] \<noteq> []"
  by (simp add: extract_span_components_eq trace_empty_args_def)

lemma length_spec_tool_usages:
  "length (concat (map (spec_tool_usages repr) os)) = length (filter has_name os)"
  by (induction os) (simp_all add: spec_tool_usages_def split: option.splits)

text \<open>
  Claim C6. Whenever the extraction returns, \<open>tool_usages\<close> and \<open>retrieved_contexts\<close>
  are, in the order of the fetched observations, what each fetched observation
  contributes: one record \<open>name, input, output\<close> when the name is true, with \<open>None\<close> in
  place of an input or output that is absent or false, and nothing otherwise; and the
  text of the output when moreover the lowercased name contains \<open>retrieve\<close> and the
  output is true. So there are exactly as many records as fetched observations with a
  name. When every fetch succeeds, the fetched observations are all the observations of
  all the identifiers.
\<close>

theorem observations_recorded:
  assumes "extract_span_components repr lf t = Inr c"
  shows "tool_usages c =
       concat (map (spec_tool_usages repr) (fetched lf (trace_observations t))) \<and>
     retrieved_contexts c =
       concat (map (spec_contexts repr) (fetched lf (trace_observations t))) \<and>
     length (tool_usages c) = length (filter has_name (fetched lf (trace_observations t))) \<and>
     (map lf (trace_observations t) = map Inr oss \<longrightarrow>
        fetched lf (trace_observations t) = concat oss)"
proof -
  from assms have
    tu: "tool_usages c =
           concat (map (spec_tool_usages repr) (fetched lf (trace_observations t)))" and
    rc: "retrieved_contexts c =
           concat (map (spec_contexts repr) (fetched lf (trace_observations t)))"
    unfolding extract_span_components_eq
    by (auto split: sum.splits)
  have len: "length (tool_usages c) =
      length (filter has_name (fetched lf (trace_observations t)))"
    unfolding tu by (rule length_spec_tool_usages)
  have al: "map lf (trace_observations t) = map Inr oss \<longrightarrow>
        fetched lf (trace_observations t) = concat oss"
    by (rule impI) (rule fetched_all)
  from tu rc len al show ?thesis by (intro conjI)
qed

theorem observations_recorded_witness:
  "extract_span_components repr_ex lf_all (trace_three\<lparr>trace_observations := [''o1'']\<rparr>) =
     Inr \<lparr>user_inputs = [''What is the revenue?''], agent_responses = [''It is 42''],
       retrieved_contexts = [''doc text''],
       tool_usages = [\<lparr>tool_name = ''RetrieveDocs'', tool_input = PStr ''q'',
                        tool_output = PStr ''doc text''\<rparr>,
                      \<lparr>tool_name = ''Summarize'', tool_input = PNone,
                        tool_output = PStr ''short''\<rparr>],
       available_tools = PList []\<rparr> \<and>
   concat (map (spec_tool_usages repr_ex) [obs_retrieve, obs_summarize]) =
     [\<lparr>tool_name = ''RetrieveDocs'', tool_input = PStr ''q'', tool_output = PStr ''doc text''\<rparr>,
      \<lparr>tool_name = ''Summarize'', tool_input = PNone, tool_output = PStr ''short''\<rparr>] \<and>
   concat (map (spec_contexts repr_ex) [obs_retrieve, obs_summarize]) = [''doc text'']"
proof -
  have r1: "str_contains ''retrieve'' (lower ''RetrieveDocs'')" by code_simp
  have r2: "\<not> str_contains ''retrieve'' (lower ''Summarize'')" by code_simp
  have h: "extract_span_components repr_ex lf_all (trace_three\<lparr>trace_observations := [''o1'']\<rparr>) =
     Inr \<lparr>user_inputs = [''What is the revenue?''], agent_responses = [''It is 42''],
       retrieved_contexts = [''doc text''],
       tool_usages = [\<lparr>tool_name = ''RetrieveDocs'', tool_input = PStr ''q'',
                        tool_output = PStr ''doc text''\<rparr>,
                      \<lparr>tool_name = ''Summarize'', tool_input = PNone,
                        tool_output = PStr ''short''\<rparr>],
       available_tools = PList []\<rparr>"
    using r1 r2
    by (simp add: extract_span_components_eq trace_three_def lf_all_def obs_retrieve_def
          obs_summarize_def spec_tool_usages_def spec_contexts_def)
  have g: "map lf_all (trace_observations (trace_three\<lparr>trace_observations := [''o1'']\<rparr>)) =
     map Inr [[obs_retrieve, obs_summarize]]"
    by (simp add: lf_all_def)
  note T = observations_recorded [OF h, where oss = "[[obs_retrieve, obs_summarize]]"]
  have f: "fetched lf_all (trace_observations (trace_three\<lparr>trace_observations := [''o1'']\<rparr>)) =
     [obs_retrieve, obs_summarize]"
    using mp [OF conjunct2 [OF conjunct2 [OF conjunct2 [OF T]]] g] by simp
  have a: "concat (map (spec_tool_usages repr_ex) [obs_retrieve, obs_summarize]) =
     [\<lparr>tool_name = ''RetrieveDocs'', tool_input = PStr ''q'', tool_output = PStr ''doc text''\<rparr>,
      \<lparr>tool_name = ''Summarize'', tool_input = PNone, tool_output = PStr ''short''\<rparr>]"
    using conjunct1 [OF T] unfolding f by simp
  have b: "concat (map (spec_contexts repr_ex) [obs_retrieve, obs_summarize]) = [''doc text'']"
    using conjunct1 [OF conjunct2 [OF T]] unfolding f by simp
  from h a b show ?thesis by (intro conjI)
qed

text \<open>
  Claim C4 as stated fails when the identifier whose fetch raises comes first: the
  other two fetches would succeed with named observations, and nothing is recorded.
\<close>

theorem first_fetch_fails_counterexample:
  "trace_observations trace_three = [''o1'', ''o2'', ''o3''] \<and>
   lf_first_fails ''o1'' = Inl ''not found'' \<and>
   lf_first_fails ''o2'' = Inr [obs_retrieve] \<and>
   lf_first_fails ''o3'' = Inr [obs_summarize] \<and>
   has_name obs_retrieve \<and> has_name obs_summarize \<and>
   extract_span_components repr_ex lf_first_fails trace_three =
     Inr \<lparr>user_inputs = [''What is the revenue?''], agent_responses = [''It is 42''],
          retrieved_contexts = [], tool_usages = [], available_tools = PList []\<rparr>"
  by (simp add: extract_span_components_eq trace_three_def lf_first_fails_def obs_retrieve_def
        obs_summarize_def)

lemma extract_returns:
  "input_safe (trace_input t) \<Longrightarrow> metadata_safe (trace_metadata t) \<Longrightarrow>
     \<exists>c. extract_span_components repr lf t = Inr c"
  using input_block_safe [of repr "trace_input t"] metadata_block_safe [of "trace_metadata t"]
  by (auto simp: extract_span_components_eq)

text \<open>
  Claim C4, amended. When the fetch of one identifier raises and the fetches of the
  identifiers in front of it succeed, the extraction records exactly the observations
  fetched in front of the failing identifier, and nothing for the identifiers after it.
  On a trace whose input and metadata have a shape the extraction accepts, it still
  returns, and the trace still gives one sample and one mapping entry when it has a user
  input.
\<close>

theorem fetch_failure_keeps_earlier:
  assumes "trace_observations t = pre @ bad # post"
    and "map lf pre = map Inr oss"
    and "lf bad = Inl e"
    and "input_safe (trace_input t)"
    and "metadata_safe (trace_metadata t)"
  shows "\<exists>c. extract_span_components repr lf t = Inr c \<and>
     tool_usages c = concat (map (spec_tool_usages repr) (concat oss)) \<and>
     retrieved_contexts c = concat (map (spec_contexts repr) (concat oss)) \<and>
     (user_inputs c \<noteq> [] \<longrightarrow>
        (\<exists>s. process_traces repr lf tcs [t] =
           Inr \<lparr>multi_turn_samples = [s],
                trace_sample_mapping =
                  [\<lparr>m_trace_id = trace_id t, m_type = ''multi_turn'', m_index = 0\<rparr>]\<rparr>))"
proof -
  from extract_returns [OF assms(4,5)] obtain c where
    c: "extract_span_components repr lf t = Inr c" by blast
  have f: "fetched lf (trace_observations t) = concat oss"
    unfolding assms(1) by (rule fetched_until_failure [OF assms(2,3)])
  from c have
    tu: "tool_usages c = concat (map (spec_tool_usages repr) (concat oss))" and
    rc: "retrieved_contexts c = concat (map (spec_contexts repr) (concat oss))"
    unfolding extract_span_components_eq f
    by (auto split: sum.splits)
  have smp: "user_inputs c \<noteq> [] \<longrightarrow>
        (\<exists>s. process_traces repr lf tcs [t] =
           Inr \<lparr>multi_turn_samples = [s],
                trace_sample_mapping =
                  [\<lparr>m_trace_id = trace_id t, m_type = ''multi_turn'', m_index = 0\<rparr>]\<rparr>)"
    by (simp add: process_traces_def trace_body_eq [OF c])
  from c tu rc smp show ?thesis by blast
qed


theorem fetch_failure_keeps_earlier_witness:
  "\<exists>c. extract_span_components repr_ex lf_second_fails trace_three = Inr c \<and>
     tool_usages c = concat (map (spec_tool_usages repr_ex) (concat [[obs_retrieve]])) \<and>
     retrieved_contexts c = concat (map (spec_contexts repr_ex) (concat [[obs_retrieve]])) \<and>
     (user_inputs c \<noteq> [] \<longrightarrow>
        (\<exists>s. process_traces repr_ex lf_second_fails [] [trace_three] =
           Inr \<lparr>multi_turn_samples = [s],
                trace_sample_mapping =
                  [\<lparr>m_trace_id = trace_id trace_three, m_type = ''multi_turn'', m_index = 0\<rparr>]\<rparr>))"
proof -
  have h1: "trace_observations trace_three = [''o1''] @ ''o2'' # [''o3'']"
    by (simp add: trace_three_def)
  have h2: "map lf_second_fails [''o1''] = map Inr [[obs_retrieve]]"
    by (simp add: lf_second_fails_def)
  have h3: "lf_second_fails ''o2'' = Inl ''not found''"
    by (simp add: lf_second_fails_def)
  have h4: "input_safe (trace_input trace_three)"
    by (simp add: trace_three_def)
  have h5: "metadata_safe (trace_metadata trace_three)"
    by (simp add: trace_three_def)
  show ?thesis
    by (rule fetch_failure_keeps_earlier [OF h1 h2 h3 h4 h5])
qed

text \<open>
  Claim C7 as stated fails on the input \<open>{"args": 5}\<close>: \<open>len(5)\<close> raises a TypeError
  outside the \<open>try\<close>, and the batch that holds this trace is aborted.
\<close>

theorem int_args_counterexample:
  "extract_span_components repr_ex lf_first_fails trace_int_args = Inl TypeError \<and>
   process_traces repr_ex lf_first_fails [] [trace_three, trace_int_args] = Inl TypeError"
proof -
  have a: "extract_span_components repr_ex lf_first_fails trace_int_args = Inl TypeError"
    by (simp add: extract_span_components_eq trace_int_args_def)
  have b: "extract_span_components repr_ex lf_first_fails trace_three =
     Inr \<lparr>user_inputs = [''What is the revenue?''], agent_responses = [''It is 42''],
          retrieved_contexts = [], tool_usages = [], available_tools = PList []\<rparr>"
    by (simp add: extract_span_components_eq trace_three_def lf_first_fails_def)
  have c: "process_traces repr_ex lf_first_fails [] [trace_three, trace_int_args] = Inl TypeError"
    by (simp add: process_traces_def trace_body_eq [OF b] trace_body_raises [OF a])
  from a c show ?thesis by (rule conjI)
qed

lemma all_extractions_return:
  "\<forall>t\<in>set ts. \<exists>c. f t = Inr c \<Longrightarrow> \<exists>cs. map f ts = map Inr cs"
proof (induction ts)
  case Nil
  then show ?case by simp
next
  case (Cons t ts)
  then obtain c cs where "f t = Inr c" and "map f ts = map Inr cs" by auto
  then have "map f (t # ts) = map Inr (c # cs)" by simp
  then show ?case by (rule exI)
qed

text \<open>
  Claim C7, amended. For every fetcher, also one that raises, the extraction returns a
  component set exactly on the traces whose input and metadata have a shape it accepts
  (\<open>input_safe\<close>, \<open>metadata_safe\<close>); a batch of such traces is never aborted.
\<close>

theorem extraction_returns_iff_safe:
  "((\<exists>c. extract_span_components repr lf t = Inr c) \<longleftrightarrow>
      input_safe (trace_input t) \<and> metadata_safe (trace_metadata t)) \<and>
   ((\<forall>u\<in>set traces. input_safe (trace_input u) \<and> metadata_safe (trace_metadata u)) \<longrightarrow>
      (\<exists>r. process_traces repr lf tcs traces = Inr r))"
proof (intro conjI impI)
  show "(\<exists>c. extract_span_components repr lf t = Inr c) \<longleftrightarrow>
      input_safe (trace_input t) \<and> metadata_safe (trace_metadata t)"
    using input_block_safe [of repr "trace_input t"] metadata_block_safe [of "trace_metadata t"]
    by (auto simp: extract_span_components_eq split: sum.splits)
next
  assume "\<forall>u\<in>set traces. input_safe (trace_input u) \<and> metadata_safe (trace_metadata u)"
  then have "\<forall>u\<in>set traces. \<exists>c. extract_span_components repr lf u = Inr c"
    by (simp add: extract_returns)
  from all_extractions_return [OF this] obtain comps where
    "map (extract_span_components repr lf) traces = map Inr comps" by blast
  from traces_loop_eq [OF this, of tcs "[]" "[]"]
  show "\<exists>r. process_traces repr lf tcs traces = Inr r"
    unfolding process_traces_def by (rule exI)
qed

theorem extraction_returns_iff_safe_witness:
  "(\<exists>c. extract_span_components repr_ex lf_first_fails trace_three = Inr c) \<and>
   (\<exists>r. process_traces repr_ex lf_first_fails [] [trace_three, trace_no_input] = Inr r)"
proof -
  note T = extraction_returns_iff_safe
    [where repr = repr_ex and lf = lf_first_fails and t = trace_three
       and traces = "[trace_three, trace_no_input]" and tcs = "[]"]
  have s1: "input_safe (trace_input trace_three) \<and> metadata_safe (trace_metadata trace_three)"
    by (simp add: trace_three_def)
  have s2: "\<forall>u\<in>set [trace_three, trace_no_input].
              input_safe (trace_input u) \<and> metadata_safe (trace_metadata u)"
    by (simp add: trace_three_def trace_no_input_def)
  have a: "\<exists>c. extract_span_components repr_ex lf_first_fails trace_three = Inr c"
    by (rule iffD2 [OF conjunct1 [OF T] s1])
  have b: "\<exists>r. process_traces repr_ex lf_first_fails [] [trace_three, trace_no_input] = Inr r"
    by (rule mp [OF conjunct2 [OF T] s2])
  from a b show ?thesis by (rule conjI)
qed

section \<open>Properties of the download of filings\<close>

lemma filing_try_counts:
  assumes "filing_try env b s r f = (r', x)"
  shows "total_filings r' = total_filings r \<and>
     ((downloaded r' = downloaded r \<and> uploaded r' = uploaded r) \<or>
      (downloaded r' = downloaded r + 1 \<and>
       (uploaded r' = uploaded r \<or> uploaded r' = uploaded r + 1)))"
  using assms
  by (auto simp: filing_try_def Let_def
      split: option.splits sum.splits if_splits bool.splits)

lemma filing_body_counts:
  assumes "filing_body env b s r f = Inr r'"
  shows "total_filings r' = total_filings r \<and>
     ((downloaded r' = downloaded r \<and> uploaded r' = uploaded r) \<or>
      (downloaded r' = downloaded r + 1 \<and>
       (uploaded r' = uploaded r \<or> uploaded r' = uploaded r + 1)))"
proof -
  obtain r1 x where t: "filing_try env b s r f = (r1, x)"
    by (cases "filing_try env b s r f")
  from assms t have "total_filings r' = total_filings r1 \<and> downloaded r' = downloaded r1 \<and>
      uploaded r' = uploaded r1"
    by (auto simp: filing_body_def split: option.splits)
  with filing_try_counts [OF t] show ?thesis by simp
qed

lemma filings_loop_counts:
  "filings_loop env b s r fs = Inr r' \<Longrightarrow>
     total_filings r' = total_filings r \<and>
     uploaded r \<le> uploaded r' \<and>
     uploaded r' - uploaded r \<le> downloaded r' - downloaded r \<and>
     downloaded r' - downloaded r \<le> int (length fs)"
proof (induction fs arbitrary: r)
  case Nil
  then show ?case by simp
next
  case (Cons f fs)
  from Cons.prems obtain r1 where
    b: "filing_body env b s r f = Inr r1" and l: "filings_loop env b s r1 fs = Inr r'"
    by (auto split: sum.splits)
  from filing_body_counts [OF b] Cons.IH [OF l] show ?case
    by auto
qed

lemma filing_body_returns:
  "accessionNo f \<noteq> None \<Longrightarrow> \<exists>r'. filing_body env b s r f = Inr r'"
  by (cases "filing_try env b s r f") (auto simp: filing_body_def split: option.splits)

lemma filings_loop_returns:
  "\<forall>f\<in>set fs. accessionNo f \<noteq> None \<Longrightarrow> \<exists>r'. filings_loop env b s r fs = Inr r'"
proof (induction fs arbitrary: r)
  case Nil
  then show ?case by simp
next
  case (Cons f fs)
  then have "accessionNo f \<noteq> None" by simp
  from filing_body_returns [OF this] obtain r1 where
    "filing_body env b s r f = Inr r1" by blast
  with Cons show ?case by simp
qed

lemma process_company_bounds:
  assumes p: "process_company env bucket_name symbol = Inr r"
  shows "0 \<le> uploaded r \<and> uploaded r \<le> downloaded r \<and> downloaded r \<le> total_filings r \<and>
      (\<exists>fs. get_filings env symbol = Inr fs \<and> total_filings r = int (length fs))"
proof -
  from p obtain gs where g: "get_filings env symbol = Inr gs"
    by (auto simp: process_company_def split: sum.splits)
  define r0 where "r0 = \<lparr>company_symbol = symbol, total_filings = int (length gs),
                          downloaded = 0, uploaded = 0, errors = []\<rparr>"
  show ?thesis
  proof (cases "gs = []")
    case True
    with p g show ?thesis by (auto simp: process_company_def)
  next
    case False
    with p g have "filings_loop env bucket_name symbol r0 gs = Inr r"
      by (simp add: process_company_def r0_def)
    from filings_loop_counts [OF this] g show ?thesis
      by (simp add: r0_def)
  qed
qed

lemma process_company_returns:
  assumes "get_filings env symbol = Inr fs" and "\<forall>f\<in>set fs. accessionNo f \<noteq> None"
  shows "\<exists>r. process_company env bucket_name symbol = Inr r"
  using filings_loop_returns [OF assms(2), of env bucket_name symbol] assms(1)
  by (simp add: process_company_def Let_def)

text \<open>
  Claim C10. A result that \<open>process_company\<close> returns satisfies
  \<open>0 \<le> uploaded \<le> downloaded \<le> total_filings\<close>, and \<open>total_filings\<close> is the number
  of filings that \<open>get_filings\<close> returned: a filing adds at most one to \<open>downloaded\<close>, and
  one to \<open>uploaded\<close> only after it added one to \<open>downloaded\<close>. The function does return
  when \<open>get_filings\<close> returns and every filing carries an \<open>accessionNo\<close>.
\<close>

theorem process_company_counts:
  "(process_company env bucket_name symbol = Inr r \<longrightarrow>
      0 \<le> uploaded r \<and> uploaded r \<le> downloaded r \<and> downloaded r \<le> total_filings r \<and>
      (\<exists>fs. get_filings env symbol = Inr fs \<and> total_filings r = int (length fs))) \<and>
   (get_filings env symbol = Inr fs \<and> (\<forall>f\<in>set fs. accessionNo f \<noteq> None) \<longrightarrow>
      (\<exists>r. process_company env bucket_name symbol = Inr r))"
proof (rule conjI)
  show "process_company env bucket_name symbol = Inr r \<longrightarrow>
      0 \<le> uploaded r \<and> uploaded r \<le> downloaded r \<and> downloaded r \<le> total_filings r \<and>
      (\<exists>fs. get_filings env symbol = Inr fs \<and> total_filings r = int (length fs))"
    by (rule impI) (rule process_company_bounds)
  show "get_filings env symbol = Inr fs \<and> (\<forall>f\<in>set fs. accessionNo f \<noteq> None) \<longrightarrow>
      (\<exists>r. process_company env bucket_name symbol = Inr r)"
    by (rule impI, erule conjE) (rule process_company_returns)
qed

lemma company_body_results:
  "company_results (company_body env b acc x) =
     (company_results acc)(x \<mapsto> (case process_company env b x of
                                      Inl e \<Rightarrow> failed_company x e | Inr r \<Rightarrow> r))"
  by (simp add: company_body_def split: sum.splits)

lemma companies_fold_results:
  "company_results (foldl (company_body env b) acc syms) s =
     (if s \<in> set syms
      then Some (case process_company env b s of Inl e \<Rightarrow> failed_company s e | Inr r \<Rightarrow> r)
      else company_results acc s)"
  by (induction syms arbitrary: acc) (auto simp: company_body_results)

text \<open>
  Claim C8. After the loop over the symbols, every symbol of the list has an entry in
  \<open>company_results\<close>. For a company on which \<open>process_company\<close> raised, the entry
  has the symbol, the three counts at zero and an error list with the one message
  \<open>Error processing company\<close>, the symbol and the text of the exception; for a company
  on which it returned, the entry is the result returned. A company that raises
  therefore neither stops the loop nor removes another company from the result, and no
  other key is added. The aggregate is returned when writing the result file succeeds.
\<close>

theorem process_companies_isolates_failures:
  "(\<forall>s\<in>set symbols. \<forall>e. process_company env bucket_name s = Inl e \<longrightarrow>
      company_results (companies_loop env bucket_name symbols) s =
        Some \<lparr>company_symbol = s, total_filings = 0, downloaded = 0, uploaded = 0,
              errors = [''Error processing company '' @ s @ '': '' @ exn_str e]\<rparr>) \<and>
   (\<forall>s\<in>set symbols. \<forall>r. process_company env bucket_name s = Inr r \<longrightarrow>
      company_results (companies_loop env bucket_name symbols) s = Some r) \<and>
   dom (company_results (companies_loop env bucket_name symbols)) = set symbols \<and>
   (write_results env (companies_loop env bucket_name symbols) = None \<longrightarrow>
      process_companies env bucket_name symbols = Inr (companies_loop env bucket_name symbols))"
proof (intro conjI)
  show "\<forall>s\<in>set symbols. \<forall>e. process_company env bucket_name s = Inl e \<longrightarrow>
      company_results (companies_loop env bucket_name symbols) s =
        Some \<lparr>company_symbol = s, total_filings = 0, downloaded = 0, uploaded = 0,
              errors = [''Error processing company '' @ s @ '': '' @ exn_str e]\<rparr>"
    by (simp add: companies_loop_def companies_fold_results failed_company_def)
  show "\<forall>s\<in>set symbols. \<forall>r. process_company env bucket_name s = Inr r \<longrightarrow>
      company_results (companies_loop env bucket_name symbols) s = Some r"
    by (simp add: companies_loop_def companies_fold_results)
  show "dom (company_results (companies_loop env bucket_name symbols)) = set symbols"
    by (auto simp: companies_loop_def companies_fold_results dom_def split: if_splits)
  show "write_results env (companies_loop env bucket_name symbols) = None \<longrightarrow>
      process_companies env bucket_name symbols = Inr (companies_loop env bucket_name symbols)"
    by (simp add: process_companies_def)
qed

lemma process_company_aapl:
  "process_company env_ex ''b'' ''AAPL'' =
     Inr \<lparr>company_symbol = ''AAPL'', total_filings = 2, downloaded = 1, uploaded = 1,
          errors = [''Failed to download filing a2'']\<rparr>"
  by (simp add: process_company_def get_filings_def env_ex_def query_ex_def render_ex_def
        save_ex_def upload_ex_def filing_ok_def filing_unrendered_def filing_body_def
        filing_try_def download_filing_def download_try_def upload_to_s3_def Let_def)

lemma process_company_msft:
  "process_company env_ex ''b'' ''MSFT'' = Inl (Raised ''api error'')"
  by (simp add: process_company_def get_filings_def env_ex_def query_ex_def)

theorem process_company_counts_witness:
  "(0 \<le> uploaded \<lparr>company_symbol = ''AAPL'', total_filings = 2, downloaded = 1, uploaded = 1,
          errors = [''Failed to download filing a2'']\<rparr> \<and>
   uploaded \<lparr>company_symbol = ''AAPL'', total_filings = 2, downloaded = 1, uploaded = 1,
          errors = [''Failed to download filing a2'']\<rparr> \<le>
     downloaded \<lparr>company_symbol = ''AAPL'', total_filings = 2, downloaded = 1, uploaded = 1,
          errors = [''Failed to download filing a2'']\<rparr> \<and>
   downloaded \<lparr>company_symbol = ''AAPL'', total_filings = 2, downloaded = 1, uploaded = 1,
          errors = [''Failed to download filing a2'']\<rparr> \<le>
     total_filings \<lparr>company_symbol = ''AAPL'', total_filings = 2, downloaded = 1, uploaded = 1,
          errors = [''Failed to download filing a2'']\<rparr> \<and>
   (\<exists>fs. get_filings env_ex ''AAPL'' = Inr fs \<and>
      total_filings \<lparr>company_symbol = ''AAPL'', total_filings = 2, downloaded = 1, uploaded = 1,
          errors = [''Failed to download filing a2'']\<rparr> = int (length fs))) \<and>
   (\<exists>r. process_company env_ex ''b'' ''AAPL'' = Inr r)"
proof -
  have g: "get_filings env_ex ''AAPL'' = Inr [filing_ok, filing_unrendered] \<and>
           (\<forall>f\<in>set [filing_ok, filing_unrendered]. accessionNo f \<noteq> None)"
    by (simp add: get_filings_def env_ex_def query_ex_def filing_ok_def filing_unrendered_def)
  show ?thesis
    by (rule conjI [OF mp [OF conjunct1 [OF process_company_counts] process_company_aapl]
                      mp [OF conjunct2 [OF process_company_counts] g]])
qed

theorem process_companies_isolates_failures_witness:
  "company_results (companies_loop env_ex ''b'' [''MSFT'', ''AAPL'']) ''MSFT'' =
     Some \<lparr>company_symbol = ''MSFT'', total_filings = 0, downloaded = 0, uploaded = 0,
           errors = [''Error processing company MSFT: api error'']\<rparr> \<and>
   company_results (companies_loop env_ex ''b'' [''MSFT'', ''AAPL'']) ''AAPL'' =
     Some \<lparr>company_symbol = ''AAPL'', total_filings = 2, downloaded = 1, uploaded = 1,
           errors = [''Failed to download filing a2'']\<rparr> \<and>
   process_companies env_ex ''b'' [''MSFT'', ''AAPL''] =
     Inr (companies_loop env_ex ''b'' [''MSFT'', ''AAPL''])"
proof -
  note U = process_companies_isolates_failures
    [where symbols = "[''MSFT'', ''AAPL'']" and env = env_ex and bucket_name = "''b''"]
  have m1: "''MSFT'' \<in> set [''MSFT'', ''AAPL'']" by simp
  have m2: "''AAPL'' \<in> set [''MSFT'', ''AAPL'']" by simp
  have w: "write_results env_ex (companies_loop env_ex ''b'' [''MSFT'', ''AAPL'']) = None"
    by (simp add: env_ex_def write_ex_def)
  have c: "process_companies env_ex ''b'' [''MSFT'', ''AAPL''] =
     Inr (companies_loop env_ex ''b'' [''MSFT'', ''AAPL''])"
    by (rule mp [OF conjunct2 [OF conjunct2 [OF conjunct2 [OF U]]] w])
  from mp [OF spec [OF bspec [OF conjunct1 [OF U] m1]] process_company_msft] have a:
    "company_results (companies_loop env_ex ''b'' [''MSFT'', ''AAPL'']) ''MSFT'' =
       Some \<lparr>company_symbol = ''MSFT'', total_filings = 0, downloaded = 0, uploaded = 0,
             errors = [''Error processing company MSFT: api error'']\<rparr>"
    by simp
  from mp [OF spec [OF bspec [OF conjunct1 [OF conjunct2 [OF U]] m2]] process_company_aapl]
  have b:
    "company_results (companies_loop env_ex ''b'' [''MSFT'', ''AAPL'']) ''AAPL'' =
       Some \<lparr>company_symbol = ''AAPL'', total_filings = 2, downloaded = 1, uploaded = 1,
             errors = [''Failed to download filing a2'']\<rparr>"
    by simp
  from a b c show ?thesis by (intro conjI)
qed

end
